theory Spec2Isabelle
  imports Complex_Main "HOL-Library.Multiset" "HOL-Library.Char_ord" "HOL-Library.List_Lexorder"
begin

section \<open>The record store: a data frame of rows\<close>

text \<open>
  Both scripts keep the labels in a pandas data frame read from a CSV file. A cell of a
  numeric column is a float or missing (NaN); a missing cell is \<open>None\<close>. A number in a
  cell is a rational that stands for the double nearest to it (for itself, when it is a
  double), so that 0.1 is written \<open>1/10\<close>; cells are compared as these rationals. Where the
  code computes with the numbers (the median and the distance from it, in the ordering of
  the images) the model rounds every operation to the nearest double, see \<open>float64\<close>.
  The frame created by \<^verbatim>\<open>pd.DataFrame(columns=["uuid", "label", "timestamp"])\<close> has no
  \<^verbatim>\<open>predicted_label\<close> column; \<open>has_predicted_label\<close> records whether the column exists,
  and the cells of a column that does not exist are \<open>None\<close>.  The row index is the default
  range index (\<^verbatim>\<open>read_csv\<close>, \<^verbatim>\<open>concat(..., ignore_index=True)\<close>), so an index label is a
  position.
\<close>

record row =
  uuid :: string
  label :: "rat option"
  timestamp :: "int option"
  predicted_label :: "rat option"

record database =
  rows :: "row list"
  has_predicted_label :: bool

text \<open>The exceptions the scripts can raise on the paths modelled here. Python raises
  \<^verbatim>\<open>IndexError\<close> both for \<^verbatim>\<open>image_files[current_index]\<close> out of range and for
  \<^verbatim>\<open>.values[0]\<close> / \<^verbatim>\<open>.index[0]\<close> on an empty selection; the two sites get a constructor each.
  \<open>LoadError\<close> stands for whatever \<^verbatim>\<open>load_image_and_prompt\<close> and \<^verbatim>\<open>resize\<close> raise on an
  image that cannot be read, \<open>FeatureError\<close> for \<^verbatim>\<open>torch.load\<close> on a missing feature file.\<close>

datatype py_error =
  IndexError_image_files | IndexError_selection | KeyError | LoadError | FeatureError

text \<open>\<^verbatim>\<open>database.loc[database['uuid'] == uuid].index[0]\<close>: the position of the first row
  with that uuid; \<open>None\<close> is the \<^verbatim>\<open>IndexError\<close> of \<^verbatim>\<open>index[0]\<close> on an empty selection.\<close>

fun index_of :: "string \<Rightarrow> row list \<Rightarrow> nat option" where
  "index_of u [] = None"
| "index_of u (r # rs) = (if uuid r = u then Some 0 else map_option Suc (index_of u rs))"

text \<open>\<^verbatim>\<open>relabel_image(uuid, label, database)\<close>; \<open>now\<close> is \<^verbatim>\<open>int(time.time())\<close>. The new row
  has the keys uuid, label and timestamp only, so \<^verbatim>\<open>concat\<close> leaves its other cells
  missing.\<close>

definition relabel_image :: "int \<Rightarrow> string \<Rightarrow> rat \<Rightarrow> database \<Rightarrow> database" where
  "relabel_image now u l db =
     (case index_of u (rows db) of
        None \<Rightarrow>
          db\<lparr>rows := rows db @
            [\<lparr>uuid = u, label = Some l, timestamp = Some now, predicted_label = None\<rparr>]\<rparr>
      | Some index_to_update \<Rightarrow>
          db\<lparr>rows := (rows db)[index_to_update :=
            (rows db ! index_to_update)\<lparr>label := Some l, timestamp := Some now\<rparr>]\<rparr>)"

text \<open>\<^verbatim>\<open>fix_database(database)\<close>: every row whose label is a number gets that label written
  to its \<^verbatim>\<open>predicted_label\<close> cell. The first such write creates the column when the
  frame has none.\<close>

definition fix_row :: "row \<Rightarrow> row" where
  "fix_row r = (case label r of None \<Rightarrow> r | Some l \<Rightarrow> r\<lparr>predicted_label := Some l\<rparr>)"

definition fix_database :: "database \<Rightarrow> database" where
  "fix_database db =
     \<lparr>rows = map fix_row (rows db),
      has_predicted_label = (has_predicted_label db \<or> (\<exists>r \<in> set (rows db). label r \<noteq> None))\<rparr>"

text \<open>\<^verbatim>\<open>load(uuid, database)\<close>: \<open>None\<close> when no row has the uuid, else the label cell of the
  first such row (which may itself be missing).\<close>

definition load :: "string \<Rightarrow> database \<Rightarrow> rat option option" where
  "load u db = map_option (\<lambda>i. label (rows db ! i)) (index_of u (rows db))"

text \<open>The back-fill invariant of the specification, on one frame.\<close>

definition backfilled :: "database \<Rightarrow> bool" where
  "backfilled db = (\<forall>r \<in> set (rows db). label r \<noteq> None \<longrightarrow> predicted_label r = label r)"

section \<open>The prediction pass (05_predict_labels.py)\<close>

text \<open>
  One entry of \<^verbatim>\<open>img_files\<close>, with what the environment answers for it: whether
  \<^verbatim>\<open>torch.load\<close> finds its feature file, the score the network gives to its features, and
  the clock reading \<^verbatim>\<open>int(time.time())\<close> taken when its row is written. The copy of a
  sample of images to the output directory touches no frame and is left out.
\<close>

record img =
  img_uuid :: string
  img_feature :: bool
  img_score :: rat
  img_time :: int

definition batch_size :: nat where
  "batch_size = 16"

text \<open>\<^verbatim>\<open>predict(features, paths, uuids, database, row)\<close>: the loop over the batch. \<open>row\<close> is
  the selection the caller made for the uuid it read last; it is tested, unchanged, for
  every entry of the batch.\<close>

fun predict :: "img list \<Rightarrow> database \<Rightarrow> row list \<Rightarrow> py_error + database" where
  "predict [] db row = Inr db"
| "predict (x # xs) db row =
     (if length row = 0 then
        predict xs
          (db\<lparr>rows := rows db @
             [\<lparr>uuid = img_uuid x, label = None, timestamp = Some (img_time x),
               predicted_label = Some (img_score x)\<rparr>]\<rparr>) row
      else
        (case index_of (img_uuid x) (rows db) of
           None \<Rightarrow> Inl IndexError_selection
         | Some index_to_update \<Rightarrow>
             predict xs
               (db\<lparr>rows := (rows db)[index_to_update :=
                  (rows db ! index_to_update)\<lparr>predicted_label := Some (img_score x),
                                             timestamp := Some (img_time x)\<rparr>]\<rparr>) row))"

text \<open>The state of the module-level loop: the frame, the pending batch, the counter
  \<^verbatim>\<open>n_predictions\<close>, the frames written so far by \<^verbatim>\<open>to_csv\<close> (oldest first), and the
  exception that ended the script, if one did. An exception ends the script, so the frame
  in memory is written nowhere after it; the state then keeps the frame the loop held
  before the call that raised.\<close>

record pass =
  pass_database :: database
  pass_batch :: "img list"
  n_predictions :: nat
  pass_saved :: "database list"
  pass_error :: "py_error option"

text \<open>\<^verbatim>\<open>row['label'].values[0] is not None and not np.isnan(...)\<close> inside \<^verbatim>\<open>try\<close>: an empty
  selection raises, and the \<^verbatim>\<open>except\<close> swallows it.\<close>

definition already_labeled :: "row list \<Rightarrow> bool" where
  "already_labeled row = (case row of [] \<Rightarrow> False | r # _ \<Rightarrow> label r \<noteq> None)"

fun predict_labels_loop :: "img list \<Rightarrow> pass \<Rightarrow> pass" where
  "predict_labels_loop [] st = st"
| "predict_labels_loop (x # xs) st =
     (let database = pass_database st;
          row = filter (\<lambda>r. uuid r = img_uuid x) (rows database)
      in if already_labeled row then predict_labels_loop xs st
         else if \<not> img_feature x then st\<lparr>pass_error := Some FeatureError\<rparr>
         else
           (let batch = pass_batch st @ [x] in
            if length batch = batch_size then
              (case predict batch database row of
                 Inl e \<Rightarrow> st\<lparr>pass_batch := batch, pass_error := Some e\<rparr>
               | Inr database' \<Rightarrow>
                   (let n = n_predictions st + batch_size in
                    predict_labels_loop xs
                      (st\<lparr>pass_database := database', pass_batch := [], n_predictions := n,
                          pass_saved := (if n mod 100 = 0 then pass_saved st @ [database']
                                         else pass_saved st)\<rparr>)))
            else
              predict_labels_loop xs
                (st\<lparr>pass_batch := batch,
                    pass_saved := (if n_predictions st mod 100 = 0
                                   then pass_saved st @ [database] else pass_saved st)\<rparr>)))"

text \<open>The script after the frame is read: the column \<^verbatim>\<open>predicted_label\<close> is added when
  missing, the loop runs over \<^verbatim>\<open>img_files\<close>, and the frame is written once more at the
  end (unless an exception ended the script before).\<close>

definition predict_labels :: "img list \<Rightarrow> database \<Rightarrow> pass" where
  "predict_labels img_files database =
     (let st = predict_labels_loop img_files
                 \<lparr>pass_database = database\<lparr>has_predicted_label := True\<rparr>, pass_batch = [],
                  n_predictions = 0, pass_saved = [], pass_error = None\<rparr>
      in case pass_error st of
           Some e \<Rightarrow> st
         | None \<Rightarrow> st\<lparr>pass_saved := pass_saved st @ [pass_database st]\<rparr>)"

text \<open>The frame property of the prediction pass between a frame and a later one: rows
  are only appended, every old row keeps its uuid and its label, a row whose label is
  present is unchanged altogether, and the appended rows have no label.\<close>

definition frame_kept :: "database \<Rightarrow> database \<Rightarrow> bool" where
  "frame_kept db db' =
     (length (rows db) \<le> length (rows db') \<and>
      (\<forall>j < length (rows db).
         uuid (rows db' ! j) = uuid (rows db ! j) \<and>
         label (rows db' ! j) = label (rows db ! j) \<and>
         (label (rows db ! j) \<noteq> None \<longrightarrow> rows db' ! j = rows db ! j)) \<and>
      (\<forall>j < length (rows db'). length (rows db) \<le> j \<longrightarrow> label (rows db' ! j) = None))"

text \<open>The first row with the uuid, if there is one, has no label: what the loop has
  checked for every uuid it puts into a batch.\<close>

definition first_unlabeled :: "row list \<Rightarrow> string \<Rightarrow> bool" where
  "first_unlabeled rs u = (case index_of u rs of None \<Rightarrow> True | Some i \<Rightarrow> label (rs ! i) = None)"

text \<open>The invariant of the module-level loop, relative to the frame the pass started
  from.\<close>

definition pass_inv :: "database \<Rightarrow> pass \<Rightarrow> bool" where
  "pass_inv db0 st =
     (frame_kept db0 (pass_database st) \<and>
      (\<forall>s \<in> set (pass_saved st). frame_kept db0 s) \<and>
      (\<forall>x \<in> set (pass_batch st). first_unlabeled (rows (pass_database st)) (img_uuid x)))"

section \<open>Paths\<close>

text \<open>\<^verbatim>\<open>os.path.join(a, b)\<close>, \<^verbatim>\<open>os.path.basename(p)\<close> and \<^verbatim>\<open>os.path.dirname(p)\<close> of
  \<^verbatim>\<open>posixpath\<close>, for two components.\<close>

definition os_path_join :: "string \<Rightarrow> string \<Rightarrow> string" where
  "os_path_join a b =
     (if b \<noteq> [] \<and> hd b = CHR ''/'' then b
      else if a = [] \<or> last a = CHR ''/'' then a @ b
      else a @ ''/'' @ b)"

definition os_path_basename :: "string \<Rightarrow> string" where
  "os_path_basename p = rev (takeWhile (\<lambda>c. c \<noteq> CHR ''/'') (rev p))"

definition os_path_dirname :: "string \<Rightarrow> string" where
  "os_path_dirname p =
     (let head = rev (dropWhile (\<lambda>c. c \<noteq> CHR ''/'') (rev p)) in
      if head \<noteq> [] \<and> (\<exists>c \<in> set head. c \<noteq> CHR ''/'')
      then rev (dropWhile (\<lambda>c. c = CHR ''/'') (rev head)) else head)"

text \<open>\<^verbatim>\<open>os.path.basename(image_file).split(".")[0]\<close>.\<close>

definition uuid_of_file :: "string \<Rightarrow> string" where
  "uuid_of_file image_file = takeWhile (\<lambda>c. c \<noteq> CHR ''.'') (os_path_basename image_file)"

section \<open>Ordering the images (re_order_images)\<close>

text \<open>
  The library functions \<^verbatim>\<open>re_order_images\<close> calls are modelled from their documentation.
  \<^verbatim>\<open>np.argsort\<close> returns the positions of the values in ascending order of value. The model
  keeps equal values in position order, as the library's default sort does on short arrays;
  on longer arrays the library's order among equal values is its own, so the theorems
  below state that the result is a rearrangement in ascending order and state an order
  among equal values on frames of three rows only.
  \<^verbatim>\<open>Series.argsort\<close> (pandas 1.x and 2.x, current when the script was written) gives a
  missing value the position \<open>-1\<close> and fills the other places, in order, with the
  \<^verbatim>\<open>np.argsort\<close> of the values that are present. \<^verbatim>\<open>Series.median\<close> skips missing values and is
  missing when none is present. Indexing an array with an array of positions counts a
  negative position from the end, as Python does for a list.
\<close>

definition py_nth :: "'a list \<Rightarrow> int \<Rightarrow> 'a option" where
  "py_nth xs i =
     (let n = int (length xs); j = (if i < 0 then i + n else i)
      in if 0 \<le> j \<and> j < n then Some (xs ! nat j) else None)"

definition np_take :: "'a list \<Rightarrow> int list \<Rightarrow> 'a list option" where
  "np_take xs idx = those (map (py_nth xs) idx)"

definition np_argsort :: "rat list \<Rightarrow> nat list" where
  "np_argsort vs = sort_key (\<lambda>i. vs ! i) [0..<length vs]"

definition present :: "rat option list \<Rightarrow> rat list" where
  "present col = map the (filter (\<lambda>c. c \<noteq> None) col)"

fun put_notmask :: "rat option list \<Rightarrow> int list \<Rightarrow> int list" where
  "put_notmask [] idx = []"
| "put_notmask (None # col) idx = -1 # put_notmask col idx"
| "put_notmask (Some v # col) [] = []"
| "put_notmask (Some v # col) (i # idx) = i # put_notmask col idx"

definition series_argsort :: "rat option list \<Rightarrow> int list" where
  "series_argsort col = put_notmask col (map int (np_argsort (present col)))"

text \<open>
  Arithmetic on doubles (IEEE 754 binary64, round to nearest, ties to even). \<open>float64 x\<close>
  is the double nearest to \<open>x\<close>: with \<open>e\<close> the exponent of \<open>x\<close> (not below that of the
  smallest normal number, so that subnormal numbers are covered), \<open>x\<close> is rounded to a
  multiple of \<open>2\<close> to the power \<open>e - 52\<close>. An operation of the code on doubles is the exact
  operation followed by \<open>float64\<close>. Overflow to infinity is not modelled: a result beyond
  the largest double is rounded as if the exponent had no upper end.
\<close>

function bit_length :: "int \<Rightarrow> int" where
  "bit_length n = (if n \<le> 0 then 0 else bit_length (n div 2) + 1)"
  by pat_completeness auto
termination
  by (relation "measure nat") auto

definition pow2 :: "int \<Rightarrow> rat" where
  "pow2 k = (if 0 \<le> k then 2 ^ nat k else 1 / 2 ^ nat (- k))"

text \<open>The exponent of a number other than 0: the \<open>e\<close> with \<open>pow2 e \<le> \<bar>x\<bar> < pow2 (e + 1)\<close>.\<close>

definition exponent :: "rat \<Rightarrow> int" where
  "exponent x =
     (let (a, b) = quotient_of \<bar>x\<bar>;
          e = bit_length a - bit_length b
      in if pow2 e \<le> \<bar>x\<bar> then e else e - 1)"

definition round_half_even :: "rat \<Rightarrow> int" where
  "round_half_even r =
     (let f = \<lfloor>r\<rfloor>; d = r - of_int f in
      if d < 1/2 then f else if 1/2 < d then f + 1 else if even f then f else f + 1)"

definition float64 :: "rat \<Rightarrow> rat" where
  "float64 x =
     (if x = 0 then 0
      else let q = pow2 (max (exponent x) (- 1022) - 52)
           in of_int (round_half_even (x / q)) * q)"

text \<open>\<^verbatim>\<open>database['predicted_label'].median()\<close>: the middle one of the present values, or,
  when their number is even, the mean of the two middle ones, computed as their sum divided
  by two.\<close>

definition series_median :: "rat option list \<Rightarrow> rat option" where
  "series_median col =
     (let s = sort (map float64 (present col)); n = length s in
      if n = 0 then None
      else if odd n then Some (s ! (n div 2))
      else Some (float64 (float64 (s ! (n div 2 - 1) + s ! (n div 2)) / 2)))"

text \<open>\<^verbatim>\<open>abs(database['predicted_label'] - median)\<close>, cell by cell: a subtraction of doubles
  and the absolute value of the result.\<close>

definition distance_from_median :: "rat option list \<Rightarrow> rat option list" where
  "distance_from_median col =
     (let median = series_median col in
      map (\<lambda>c. case (c, median) of
                 (Some p, Some m) \<Rightarrow> Some \<bar>float64 (float64 p - m)\<bar>
               | _ \<Rightarrow> None) col)"

text \<open>The choice made in the window of \<^verbatim>\<open>create_sorting_window\<close>: the values of its four
  radio buttons.\<close>

datatype sorting_option = Uuid | Predicted_bad_first | Predicted_good_first | Middle

text \<open>Lines 144 to 147 of \<^verbatim>\<open>re_order_images\<close>: the uuids of the rows at the sorted
  positions, each turned into the path of its image. A position out of range would raise
  \<^verbatim>\<open>IndexError\<close>; \<open>re_order_images_rows_only\<close> below shows that none is.\<close>

definition files_at :: "string \<Rightarrow> database \<Rightarrow> int list \<Rightarrow> py_error + string list" where
  "files_at root_directory database sorted_indices =
     (case np_take (map uuid (rows database)) sorted_indices of
        None \<Rightarrow> Inl IndexError_selection
      | Some uuids \<Rightarrow> Inr (map (\<lambda>u. os_path_join root_directory (u @ ''.jpg'')) uuids))"

text \<open>\<^verbatim>\<open>re_order_images(image_files, database)\<close>. \<open>root_directory\<close> is the global of that
  name, \<open>jpgs\<close> is what \<^verbatim>\<open>glob.glob(os.path.join(root_directory, "*.jpg"))\<close> returns, and
  \<open>sorting_option\<close> is what the window returns. Reading the column \<^verbatim>\<open>predicted_label\<close> of
  a frame that has none raises \<^verbatim>\<open>KeyError\<close>. The parameter \<open>image_files\<close> is read by no
  branch. The column \<^verbatim>\<open>distance_from_median\<close> that the last branch adds to the frame is read
  by nothing else and is not kept in the model.\<close>

definition re_order_images ::
  "string \<Rightarrow> string list \<Rightarrow> sorting_option \<Rightarrow> string list \<Rightarrow> database \<Rightarrow> py_error + string list"
where
  "re_order_images root_directory jpgs sorting_option image_files database =
     (case sorting_option of
        Uuid \<Rightarrow> Inr (sort jpgs)
      | Predicted_bad_first \<Rightarrow>
          if \<not> has_predicted_label database then Inl KeyError
          else files_at root_directory database
                 (series_argsort (map predicted_label (rows database)))
      | Predicted_good_first \<Rightarrow>
          if \<not> has_predicted_label database then Inl KeyError
          else files_at root_directory database
                 (rev (series_argsort (map predicted_label (rows database))))
      | Middle \<Rightarrow>
          if \<not> has_predicted_label database then Inl KeyError
          else files_at root_directory database
                 (series_argsort (distance_from_median (map predicted_label (rows database)))))"

section \<open>The labelling session (label_dataset)\<close>

text \<open>
  What the environment delivers while the window waits for a key: the key code
  \<^verbatim>\<open>cv2.waitKey(0)\<close> returns, the clock reading \<^verbatim>\<open>int(time.time())\<close> that \<^verbatim>\<open>relabel_image\<close>
  takes if the key is a digit, and the number \<^verbatim>\<open>random.random()\<close> returns after the key is
  handled.
\<close>

record tick =
  tick_key :: int
  tick_time :: int
  tick_random :: rat

text \<open>What the session does that can be observed from outside, in order: an index passed
  over by the skip test, an image shown (its index, its uuid, and the label drawn on it,
  \<open>None\<close> when the predicted label is drawn instead), \<^verbatim>\<open>database.to_csv(path, index=False)\<close>,
  which opens \<open>path\<close> itself for writing and writes the frame there, and a call of
  \<^verbatim>\<open>create_backup(path)\<close>, which touches backup files only.\<close>

datatype event =
    is_Skipped: Skipped int
  | Shown int string "rat option"
  | To_csv string database
  | Create_backup string

text \<open>How the loop ends: the key \<^verbatim>\<open>q\<close> or escape, an exception, or, when the list of key
  presses is used up, the window waiting for a key that does not come.\<close>

datatype ending = Quit | Raised py_error | Waiting

record session =
  ended :: ending
  database_at_end :: database
  index_at_end :: int
  trace :: "event list"

definition stop :: "ending \<Rightarrow> database \<Rightarrow> int \<Rightarrow> session" where
  "stop e database current_index =
     \<lparr>ended = e, database_at_end = database, index_at_end = current_index, trace = []\<rparr>"

definition emit :: "event list \<Rightarrow> session \<Rightarrow> session" where
  "emit evs s = s\<lparr>trace := evs @ trace s\<rparr>"

text \<open>\<^verbatim>\<open>(label is not None) and (not np.isnan(label))\<close>, on what \<^verbatim>\<open>load\<close> returned.\<close>

definition label_present :: "rat option option \<Rightarrow> bool" where
  "label_present l = (case l of Some (Some v) \<Rightarrow> True | _ \<Rightarrow> False)"

definition shown_label :: "rat option option \<Rightarrow> rat option" where
  "shown_label l = (case l of Some (Some v) \<Rightarrow> Some v | _ \<Rightarrow> None)"

definition maybe_backup :: "string \<Rightarrow> tick \<Rightarrow> event list" where
  "maybe_backup label_file t = (if tick_random t < 1/10 then [Create_backup label_file] else [])"

text \<open>
  The \<^verbatim>\<open>while True\<close> loop of \<^verbatim>\<open>label_dataset\<close>. \<open>readable u\<close> says whether
  \<^verbatim>\<open>load_image_and_prompt\<close> and \<^verbatim>\<open>resize\<close> return for the uuid. The label read by \<^verbatim>\<open>load\<close>
  is \<open>None\<close> when no row has the uuid, \<open>Some None\<close> when the cell is missing. The key codes
  are those of the source: 48 to 57 for the digits, 113 for \<^verbatim>\<open>q\<close>, 27 for escape, 81 and 83
  for the arrows.
\<close>

function label_dataset_loop ::
  "string \<Rightarrow> (string \<Rightarrow> bool) \<Rightarrow> string list \<Rightarrow> tick list \<Rightarrow> database \<Rightarrow> int \<Rightarrow> bool \<Rightarrow> session"
where
  "label_dataset_loop label_file readable image_files ticks database current_index
       skip_labeled_files =
     (case py_nth image_files current_index of
        None \<Rightarrow> stop (Raised IndexError_image_files) database current_index
      | Some image_file \<Rightarrow>
          (let u = uuid_of_file image_file; l = load u database in
           if label_present l \<and> skip_labeled_files then
             emit [Skipped current_index]
               (label_dataset_loop label_file readable image_files ticks database
                  (current_index + 1) skip_labeled_files)
           else if \<not> readable u then stop (Raised LoadError) database current_index
           else if \<not> label_present l \<and> \<not> has_predicted_label database then
             stop (Raised KeyError) database current_index
           else if l = None then stop (Raised IndexError_selection) database current_index
           else
             (case ticks of
                [] \<Rightarrow> emit [Shown current_index u (shown_label l)] (stop Waiting database current_index)
              | t # ticks' \<Rightarrow>
                  (let key = tick_key t in
                   if 48 \<le> key \<and> key \<le> 57 then
                     (let database' =
                            relabel_image (tick_time t) u (of_int (key - 48) / 10) database
                      in emit ([Shown current_index u (shown_label l), To_csv label_file database']
                                 @ maybe_backup label_file t)
                           (label_dataset_loop label_file readable image_files ticks' database'
                              ((current_index + 1) mod int (length image_files)) False))
                   else if key = 113 \<or> key = 27 then
                     emit [Shown current_index u (shown_label l)] (stop Quit database current_index)
                   else
                     emit (Shown current_index u (shown_label l) # maybe_backup label_file t)
                       (label_dataset_loop label_file readable image_files ticks' database
                          ((if key = 81 then current_index - 1
                            else if key = 83 then current_index + 1
                            else current_index) mod int (length image_files)) False)))))"
  by pat_completeness auto
termination
  by (relation "measures
        [\<lambda>(label_file, readable, image_files, ticks, database, current_index, skip). length ticks,
         \<lambda>(label_file, readable, image_files, ticks, database, current_index, skip).
            nat (int (length image_files) - current_index)]")
     (auto simp: py_nth_def Let_def split: if_splits)



section \<open>Concrete inputs\<close>

text \<open>A frame with one labelled and one unlabelled row, and a directory listing of
  seventeen images whose features all load.\<close>

definition example_database :: database where
  "example_database =
     \<lparr>rows = [\<lparr>uuid = ''a'', label = Some (1/2), timestamp = Some 100, predicted_label = Some (1/2)\<rparr>,
              \<lparr>uuid = ''b'', label = None, timestamp = Some 100, predicted_label = Some (1/5)\<rparr>],
      has_predicted_label = True\<rparr>"

definition listed :: "string \<Rightarrow> img" where
  "listed u = \<lparr>img_uuid = u, img_feature = True, img_score = 7/10, img_time = 200\<rparr>"

definition example_img_files :: "img list" where
  "example_img_files = map listed
     [''a'', ''b'', ''c'', ''d'', ''e'', ''f'', ''g'', ''h'', ''i'', ''j'', ''k'', ''l'', ''m'',
      ''n'', ''o'', ''p'', ''q'']"

text \<open>A frame with the column \<^verbatim>\<open>predicted_label\<close>, given by the uuid and the predicted label
  of its rows in row order; no row is labelled.\<close>

definition frame_of_scores :: "(string \<times> rat option) list \<Rightarrow> database" where
  "frame_of_scores ps =
     \<lparr>rows = map (\<lambda>(u, p). \<lparr>uuid = u, label = None, timestamp = Some 100, predicted_label = p\<rparr>) ps,
      has_predicted_label = True\<rparr>"

text \<open>A key press at clock reading 300 after which no backup is drawn.\<close>

definition key_press :: "int \<Rightarrow> tick" where
  "key_press k = \<lparr>tick_key = k, tick_time = 300, tick_random = 1/2\<rparr>"

section \<open>Facts about the store\<close>

lemmas example_defs = example_database_def example_img_files_def listed_def

lemma index_of_None: "index_of u rs = None \<longleftrightarrow> u \<notin> uuid ` set rs"
  by (induction rs) auto

lemma index_of_Some:
  "index_of u rs = Some i \<Longrightarrow> i < length rs \<and> uuid (rs ! i) = u \<and> (\<forall>j<i. uuid (rs ! j) \<noteq> u)"
proof (induction rs arbitrary: i)
  case Nil
  then show ?case by simp
next
  case (Cons r rs)
  show ?case
  proof (cases "uuid r = u")
    case True
    with Cons.prems show ?thesis by simp
  next
    case False
    with Cons.prems obtain k where k: "index_of u rs = Some k" "i = Suc k"
      by auto
    from Cons.IH [OF k(1)] False k(2) show ?thesis
      by (auto simp: nth_Cons split: nat.splits)
  qed
qed

lemma fix_row_idem: "fix_row (fix_row r) = fix_row r"
  by (simp add: fix_row_def split: option.splits)

lemma label_fix_row: "label (fix_row r) = label r"
  by (simp add: fix_row_def split: option.splits)

text \<open>C9. \<^verbatim>\<open>fix_database\<close> is idempotent: for every frame, a second pass over the
  result of the first changes nothing.\<close>

theorem fix_database_idempotent: "fix_database (fix_database db) = fix_database db"
  by (auto simp: fix_database_def fix_row_idem label_fix_row)

theorem fix_database_idempotent_witness:
  "fix_database (fix_database
     \<lparr>rows = [\<lparr>uuid = ''a'', label = Some (1/2), timestamp = Some 5, predicted_label = None\<rparr>],
      has_predicted_label = False\<rparr>) =
   \<lparr>rows = [\<lparr>uuid = ''a'', label = Some (1/2), timestamp = Some 5, predicted_label = Some (1/2)\<rparr>],
    has_predicted_label = True\<rparr>"
  using fix_database_idempotent
    [of "\<lparr>rows = [\<lparr>uuid = ''a'', label = Some (1/2), timestamp = Some 5, predicted_label = None\<rparr>],
      has_predicted_label = False\<rparr>"]
  by (simp add: fix_database_def fix_row_def)

section \<open>The prediction pass keeps labelled rows\<close>

lemma frame_kept_refl: "frame_kept db db"
  by (simp add: frame_kept_def)

lemma frame_kept_trans: "frame_kept a b \<Longrightarrow> frame_kept b c \<Longrightarrow> frame_kept a c"
  unfolding frame_kept_def
  apply (intro conjI allI impI)
      apply simp
     apply simp
    apply simp
   apply (metis less_le_trans)
  by (metis le_trans linorder_not_less)

lemma index_of_append:
  "index_of u (rs @ [r]) =
     (case index_of u rs of Some i \<Rightarrow> Some i
      | None \<Rightarrow> if uuid r = u then Some (length rs) else None)"
  by (induction rs) (auto split: option.splits)

lemma index_of_update:
  "uuid r = uuid (rs ! i) \<Longrightarrow> i < length rs \<Longrightarrow> index_of u (rs[i := r]) = index_of u rs"
  by (induction rs arbitrary: i) (auto split: nat.splits)

lemma first_unlabeled_append:
  "label r = None \<Longrightarrow> first_unlabeled rs u \<Longrightarrow> first_unlabeled (rs @ [r]) u"
  by (auto simp: first_unlabeled_def index_of_append nth_append dest: index_of_Some split: option.splits)

lemma first_unlabeled_update:
  "uuid r = uuid (rs ! i) \<Longrightarrow> label r = label (rs ! i) \<Longrightarrow> i < length rs \<Longrightarrow>
   first_unlabeled rs u \<Longrightarrow> first_unlabeled (rs[i := r]) u"
  by (auto simp: first_unlabeled_def index_of_update nth_list_update split: option.splits)

lemma frame_kept_append:
  "label r = None \<Longrightarrow> frame_kept db (db\<lparr>rows := rows db @ [r]\<rparr>)"
  by (auto simp: frame_kept_def nth_append)

lemma frame_kept_update:
  "i < length (rows db) \<Longrightarrow> uuid r = uuid (rows db ! i) \<Longrightarrow> label r = None \<Longrightarrow>
   label (rows db ! i) = None \<Longrightarrow> frame_kept db (db\<lparr>rows := (rows db)[i := r]\<rparr>)"
  by (auto simp: frame_kept_def nth_list_update)

lemma predict_frame_kept:
  "predict xs db row = Inr db' \<Longrightarrow> \<forall>x \<in> set xs. first_unlabeled (rows db) (img_uuid x) \<Longrightarrow>
   frame_kept db db'"
proof (induction xs arbitrary: db)
  case Nil
  then show ?case by (simp add: frame_kept_refl)
next
  case (Cons x xs)
  show ?case
  proof (cases "length row = 0")
    case True
    let ?r = "\<lparr>uuid = img_uuid x, label = None, timestamp = Some (img_time x),
               predicted_label = Some (img_score x)\<rparr>"
    let ?db = "db\<lparr>rows := rows db @ [?r]\<rparr>"
    from Cons.prems True have p: "predict xs ?db row = Inr db'" by simp
    from Cons.prems(2) have "\<forall>y \<in> set xs. first_unlabeled (rows ?db) (img_uuid y)"
      by (simp add: first_unlabeled_append)
    from Cons.IH [OF p this] have "frame_kept ?db db'" .
    moreover have "frame_kept db ?db" by (rule frame_kept_append) simp
    ultimately show ?thesis by (blast intro: frame_kept_trans)
  next
    case False
    with Cons.prems obtain i where i: "index_of (img_uuid x) (rows db) = Some i"
      by (auto split: option.splits)
    let ?r = "(rows db ! i)\<lparr>predicted_label := Some (img_score x), timestamp := Some (img_time x)\<rparr>"
    let ?db = "db\<lparr>rows := (rows db)[i := ?r]\<rparr>"
    from Cons.prems False i have p: "predict xs ?db row = Inr db'" by simp
    from index_of_Some [OF i] have il: "i < length (rows db)" by simp
    from Cons.prems(2) i have lab: "label (rows db ! i) = None"
      by (simp add: first_unlabeled_def)
    from Cons.prems(2) il have "\<forall>y \<in> set xs. first_unlabeled (rows ?db) (img_uuid y)"
      by (simp add: first_unlabeled_update)
    from Cons.IH [OF p this] have "frame_kept ?db db'" .
    moreover have "frame_kept db ?db" by (rule frame_kept_update) (simp_all add: lab il)
    ultimately show ?thesis by (blast intro: frame_kept_trans)
  qed
qed

lemma already_labeled_filter:
  "already_labeled (filter (\<lambda>r. uuid r = u) rs) \<longleftrightarrow> \<not> first_unlabeled rs u"
  by (induction rs) (auto simp: already_labeled_def first_unlabeled_def split: option.splits list.splits)

lemma predict_labels_loop_inv:
  "pass_inv db0 st \<Longrightarrow> pass_inv db0 (predict_labels_loop xs st)"
proof (induction xs arbitrary: st)
  case Nil
  then show ?case by simp
next
  case (Cons x xs)
  let ?db = "pass_database st"
  let ?row = "filter (\<lambda>r. uuid r = img_uuid x) (rows ?db)"
  let ?batch = "pass_batch st @ [x]"
  show ?case
  proof (cases "already_labeled ?row")
    case True
    with Cons show ?thesis by (simp add: Let_def)
  next
    case unl: False
    then have fu: "first_unlabeled (rows ?db) (img_uuid x)"
      by (simp add: already_labeled_filter)
    show ?thesis
    proof (cases "img_feature x")
      case False
      with unl Cons.prems show ?thesis by (simp add: Let_def pass_inv_def)
    next
      case feat: True
      from Cons.prems fu have b: "\<forall>y \<in> set ?batch. first_unlabeled (rows ?db) (img_uuid y)"
        by (simp add: pass_inv_def)
      show ?thesis
      proof (cases "length ?batch = batch_size")
        case False
        let ?st = "st\<lparr>pass_batch := ?batch,
                    pass_saved := (if n_predictions st mod 100 = 0
                                   then pass_saved st @ [?db] else pass_saved st)\<rparr>"
        from Cons.prems b have "pass_inv db0 ?st"
          by (simp add: pass_inv_def)
        from Cons.IH [OF this] unl feat False show ?thesis
          by (simp add: Let_def)
      next
        case full: True
        show ?thesis
        proof (cases "predict ?batch ?db ?row")
          case (Inl e)
          with unl feat full Cons.prems b show ?thesis
            by (simp add: Let_def pass_inv_def)
        next
          case (Inr db')
          from predict_frame_kept [OF Inr b] have "frame_kept ?db db'" .
          with Cons.prems have fk: "frame_kept db0 db'"
            by (auto simp: pass_inv_def intro: frame_kept_trans)
          let ?n = "n_predictions st + batch_size"
          let ?st = "st\<lparr>pass_database := db', pass_batch := [], n_predictions := ?n,
                        pass_saved := (if ?n mod 100 = 0 then pass_saved st @ [db']
                                       else pass_saved st)\<rparr>"
          from Cons.prems fk have "pass_inv db0 ?st"
            by (simp add: pass_inv_def)
          from Cons.IH [OF this] unl feat full Inr show ?thesis
            by (simp add: Let_def)
        qed
      qed
    qed
  qed
qed

lemma frame_kept_column: "frame_kept (db\<lparr>has_predicted_label := b\<rparr>) db' = frame_kept db db'"
  by (simp add: frame_kept_def)

lemma predict_labels_pass_inv:
  "pass_inv (db\<lparr>has_predicted_label := True\<rparr>)
     (predict_labels_loop img_files
        \<lparr>pass_database = db\<lparr>has_predicted_label := True\<rparr>, pass_batch = [],
         n_predictions = 0, pass_saved = [], pass_error = None\<rparr>)"
  by (rule predict_labels_loop_inv) (simp add: pass_inv_def frame_kept_refl)

text \<open>C8. Frame property of the prediction pass. However the pass ends, in the frame it
  holds at the end and in every frame it has written with \<^verbatim>\<open>to_csv\<close>, each row of the
  frame it started from is still at its position with the same uuid and the same label, and
  a row whose label is present is unchanged (so its \<^verbatim>\<open>predicted_label\<close> is); rows added by
  the pass have no label.\<close>

theorem predict_labels_frame:
  "frame_kept db (pass_database (predict_labels img_files db)) \<and>
   (\<forall>s \<in> set (pass_saved (predict_labels img_files db)). frame_kept db s)"
proof -
  let ?st = "predict_labels_loop img_files
        \<lparr>pass_database = db\<lparr>has_predicted_label := True\<rparr>, pass_batch = [],
         n_predictions = 0, pass_saved = [], pass_error = None\<rparr>"
  from predict_labels_pass_inv [of db img_files]
  have kept: "frame_kept db (pass_database ?st)" "\<forall>s \<in> set (pass_saved ?st). frame_kept db s"
    by (simp_all add: pass_inv_def frame_kept_column)
  show ?thesis
  proof (cases "pass_error ?st")
    case None
    with kept show ?thesis by (simp add: predict_labels_def Let_def)
  next
    case (Some e)
    with kept show ?thesis by (simp add: predict_labels_def Let_def)
  qed
qed

theorem predict_labels_frame_witness:
  "frame_kept example_database (pass_database (predict_labels example_img_files example_database)) \<and>
   label (rows example_database ! 0) = Some (1/2) \<and>
   rows (pass_database (predict_labels example_img_files example_database)) ! 0 =
     rows example_database ! 0 \<and>
   pass_error (predict_labels example_img_files example_database) = None \<and>
   length (rows (pass_database (predict_labels example_img_files example_database))) = 18 \<and>
   length (pass_saved (predict_labels example_img_files example_database)) = 16"
proof -
  have "frame_kept example_database
          (pass_database (predict_labels example_img_files example_database))"
    using predict_labels_frame [of example_database example_img_files] by simp
  moreover have "label (rows example_database ! 0) = Some (1/2)"
    by (simp add: example_defs)
  moreover have "rows (pass_database (predict_labels example_img_files example_database)) ! 0 =
     rows example_database ! 0"
    by (simp add: example_defs predict_labels_def already_labeled_def batch_size_def Let_def)
  moreover have "pass_error (predict_labels example_img_files example_database) = None"
    by (simp add: example_defs predict_labels_def already_labeled_def batch_size_def Let_def)
  moreover have
    "length (rows (pass_database (predict_labels example_img_files example_database))) = 18"
    by (simp add: example_defs predict_labels_def already_labeled_def batch_size_def Let_def)
  moreover have "length (pass_saved (predict_labels example_img_files example_database)) = 16"
    by (simp add: example_defs predict_labels_def already_labeled_def batch_size_def Let_def)
  ultimately show ?thesis by simp
qed

text \<open>C4 (the code at the failing input). The frame holds one row per uuid; the listing has
  a labelled image, then sixteen unlabelled ones of which the first has a row and the last
  has none. \<^verbatim>\<open>predict\<close> tests the selection made for the last uuid for every entry of the
  batch, so it appends a row for each of the sixteen, and the frame that is written holds
  two rows for \<open>b\<close>.\<close>

theorem predict_labels_duplicates_uuid:
  "distinct (map uuid (rows example_database)) \<and>
   pass_error (predict_labels example_img_files example_database) = None \<and>
   map uuid (rows (pass_database (predict_labels example_img_files example_database))) =
     [''a'', ''b'', ''b'', ''c'', ''d'', ''e'', ''f'', ''g'', ''h'', ''i'', ''j'', ''k'', ''l'',
      ''m'', ''n'', ''o'', ''p'', ''q''] \<and>
   \<not> distinct (map uuid (rows (last (pass_saved
        (predict_labels example_img_files example_database)))))"
  by (simp add: example_defs predict_labels_def already_labeled_def batch_size_def Let_def)

section \<open>The back-fill invariant\<close>

lemma frame_kept_backfilled: "frame_kept db db' \<Longrightarrow> backfilled db \<Longrightarrow> backfilled db'"
  unfolding backfilled_def frame_kept_def
proof (intro ballI impI)
  fix r
  assume a: "length (rows db) \<le> length (rows db') \<and>
      (\<forall>j < length (rows db).
         uuid (rows db' ! j) = uuid (rows db ! j) \<and>
         label (rows db' ! j) = label (rows db ! j) \<and>
         (label (rows db ! j) \<noteq> None \<longrightarrow> rows db' ! j = rows db ! j)) \<and>
      (\<forall>j < length (rows db'). length (rows db) \<le> j \<longrightarrow> label (rows db' ! j) = None)"
    and b: "\<forall>r\<in>set (rows db). label r \<noteq> None \<longrightarrow> predicted_label r = label r"
    and r: "r \<in> set (rows db')" "label r \<noteq> None"
  from r(1) obtain j where j: "j < length (rows db')" "r = rows db' ! j"
    by (auto simp: in_set_conv_nth)
  with a r(2) have jl: "j < length (rows db)"
    by (metis linorder_not_less)
  with a j r(2) have "r = rows db ! j" by metis
  with jl b r(2) show "predicted_label r = label r"
    by (metis nth_mem)
qed

lemma backfilled_fix_database: "backfilled (fix_database db)"
  by (auto simp: backfilled_def fix_database_def fix_row_def split: option.splits)

lemma relabel_example_rows:
  "rows (relabel_image 300 ''b'' (3/10) example_database) =
   [\<lparr>uuid = ''a'', label = Some (1/2), timestamp = Some 100, predicted_label = Some (1/2)\<rparr>,
    \<lparr>uuid = ''b'', label = Some (3/10), timestamp = Some 300, predicted_label = Some (1/5)\<rparr>]"
  by (simp add: example_defs relabel_image_def)

text \<open>C1 (as amended). The back-fill invariant holds in the frame \<^verbatim>\<open>fix_database\<close>
  returns, whatever frame it is given, and the prediction pass keeps it: if it holds in the
  frame the pass starts from, it holds in the frame the pass ends with and in every frame
  the pass writes. Nothing is said of \<^verbatim>\<open>relabel_image\<close>, which writes the label and leaves
  \<^verbatim>\<open>predicted_label\<close> as it was.\<close>

theorem backfill_invariant_where_kept:
  "backfilled (fix_database db) \<and>
   (backfilled db \<longrightarrow>
      backfilled (pass_database (predict_labels img_files db)) \<and>
      (\<forall>s \<in> set (pass_saved (predict_labels img_files db)). backfilled s))"
proof (intro conjI impI)
  show "backfilled (fix_database db)"
    by (rule backfilled_fix_database)
next
  assume b: "backfilled db"
  let ?st = "predict_labels_loop img_files
        \<lparr>pass_database = db\<lparr>has_predicted_label := True\<rparr>, pass_batch = [],
         n_predictions = 0, pass_saved = [], pass_error = None\<rparr>"
  from predict_labels_pass_inv [of db img_files]
  have kept: "frame_kept db (pass_database ?st)" "\<forall>s \<in> set (pass_saved ?st). frame_kept db s"
    by (simp_all add: pass_inv_def frame_kept_column)
  with b have ok: "backfilled (pass_database ?st)" "\<forall>s \<in> set (pass_saved ?st). backfilled s"
    by (auto intro: frame_kept_backfilled)
  show "backfilled (pass_database (predict_labels img_files db))"
    using ok by (cases "pass_error ?st") (simp_all add: predict_labels_def Let_def)
  show "\<forall>s \<in> set (pass_saved (predict_labels img_files db)). backfilled s"
    using ok by (cases "pass_error ?st") (simp_all add: predict_labels_def Let_def)
qed

theorem backfill_invariant_where_kept_witness:
  "backfilled (fix_database (relabel_image 300 ''b'' (3/10) example_database)) \<and>
   backfilled example_database \<and>
   backfilled (pass_database (predict_labels example_img_files example_database)) \<and>
   predicted_label (rows (fix_database (relabel_image 300 ''b'' (3/10) example_database)) ! 1) =
     Some (3/10)"
proof -
  have e: "backfilled example_database"
    by (simp add: backfilled_def example_defs del: not_None_eq)
  have p: "predicted_label (rows (fix_database (relabel_image 300 ''b'' (3/10) example_database)) ! 1)
      = Some (3/10)"
    by (simp add: relabel_example_rows fix_database_def fix_row_def)
  have f: "backfilled (fix_database (relabel_image 300 ''b'' (3/10) example_database))"
    using backfill_invariant_where_kept [of "relabel_image 300 ''b'' (3/10) example_database"]
    by (rule conjunct1)
  have "backfilled (pass_database (predict_labels example_img_files example_database))"
    using backfill_invariant_where_kept [of example_database example_img_files] e by blast
  with e p f show ?thesis by blast
qed

text \<open>C1 (counterexample). The invariant holds in the example frame; after \<^verbatim>\<open>relabel_image\<close>
  gives the unlabelled row \<open>b\<close> the label 0.3 its \<^verbatim>\<open>predicted_label\<close> is still 0.2, so the
  frame reached (and then written to disk by the session) breaks the invariant.\<close>

theorem relabel_image_breaks_backfill:
  "backfilled example_database \<and>
   \<not> backfilled (relabel_image 300 ''b'' (3/10) example_database)"
proof
  show "backfilled example_database"
    by (simp add: backfilled_def example_database_def del: not_None_eq)
  show "\<not> backfilled (relabel_image 300 ''b'' (3/10) example_database)"
    by (simp add: backfilled_def relabel_example_rows del: not_None_eq)
qed

section \<open>What relabel_image writes\<close>

lemma index_of_append_new:
  "index_of u rs = None \<Longrightarrow> uuid r = u \<Longrightarrow> index_of u (rs @ [r]) = Some (length rs)"
  by (simp add: index_of_append)

text \<open>C2 (as amended). \<^verbatim>\<open>relabel_image\<close> writes the label and the call time into the first
  row with the uuid and changes no other cell: the \<^verbatim>\<open>predicted_label\<close> and the uuid of
  every existing row stay as they were, and every other row is unchanged. For a uuid with
  no row it appends one row holding the uuid, the label and the call time, whose
  \<^verbatim>\<open>predicted_label\<close> is missing. Either way \<^verbatim>\<open>load\<close> then returns the label.\<close>

theorem relabel_image_effect:
  "has_predicted_label (relabel_image now u l db) = has_predicted_label db \<and>
   load u (relabel_image now u l db) = Some (Some l) \<and>
   (\<forall>j < length (rows db).
      predicted_label (rows (relabel_image now u l db) ! j) = predicted_label (rows db ! j) \<and>
      uuid (rows (relabel_image now u l db) ! j) = uuid (rows db ! j)) \<and>
   (case index_of u (rows db) of
      None \<Rightarrow>
        rows (relabel_image now u l db) =
          rows db @ [\<lparr>uuid = u, label = Some l, timestamp = Some now, predicted_label = None\<rparr>]
    | Some i \<Rightarrow>
        length (rows (relabel_image now u l db)) = length (rows db) \<and>
        label (rows (relabel_image now u l db) ! i) = Some l \<and>
        timestamp (rows (relabel_image now u l db) ! i) = Some now \<and>
        (\<forall>j < length (rows db). j \<noteq> i \<longrightarrow>
           rows (relabel_image now u l db) ! j = rows db ! j))"
proof (cases "index_of u (rows db)")
  case None
  then show ?thesis
    by (simp add: relabel_image_def load_def nth_append index_of_append_new)
next
  case (Some i)
  from index_of_Some [OF Some] have i: "i < length (rows db)" "uuid (rows db ! i) = u"
    by auto
  have "index_of u ((rows db)[i := (rows db ! i)\<lparr>label := Some l, timestamp := Some now\<rparr>]) = Some i"
    using Some i by (simp add: index_of_update)
  with Some i show ?thesis
    by (simp add: relabel_image_def load_def nth_list_update)
qed

theorem relabel_image_effect_witness:
  "index_of ''b'' (rows example_database) = Some 1 \<and>
   load ''b'' (relabel_image 300 ''b'' (3/10) example_database) = Some (Some (3/10)) \<and>
   timestamp (rows (relabel_image 300 ''b'' (3/10) example_database) ! 1) = Some 300 \<and>
   rows (relabel_image 300 ''b'' (3/10) example_database) ! 0 = rows example_database ! 0 \<and>
   index_of ''z'' (rows example_database) = None \<and>
   load ''z'' (relabel_image 300 ''z'' (3/10) example_database) = Some (Some (3/10))"
proof -
  have "index_of ''b'' (rows example_database) = Some 1"
    and "index_of ''z'' (rows example_database) = None"
    by (simp_all add: example_database_def)
  moreover have "timestamp (rows (relabel_image 300 ''b'' (3/10) example_database) ! 1) = Some 300"
    and "rows (relabel_image 300 ''b'' (3/10) example_database) ! 0 = rows example_database ! 0"
    by (simp_all add: relabel_example_rows) (simp add: example_database_def)
  moreover have "load ''b'' (relabel_image 300 ''b'' (3/10) example_database) = Some (Some (3/10))"
    using relabel_image_effect [of 300 "''b''" "3/10" example_database] by blast
  moreover have "load ''z'' (relabel_image 300 ''z'' (3/10) example_database) = Some (Some (3/10))"
    using relabel_image_effect [of 300 "''z''" "3/10" example_database] by blast
  ultimately show ?thesis by blast
qed

text \<open>C2 (counterexample). Row \<open>b\<close> has the predicted label 0.2; after it is given the label
  0.3 its \<^verbatim>\<open>predicted_label\<close> is still 0.2, not 0.3. The row created for the unknown uuid
  \<open>z\<close> has no \<^verbatim>\<open>predicted_label\<close> at all.\<close>

theorem relabel_image_keeps_predicted_label:
  "predicted_label (rows (relabel_image 300 ''b'' (3/10) example_database) ! 1) = Some (1/5) \<and>
   label (rows (relabel_image 300 ''b'' (3/10) example_database) ! 1) = Some (3/10) \<and>
   rows (relabel_image 300 ''z'' (3/10) example_database) ! 2 =
     \<lparr>uuid = ''z'', label = Some (3/10), timestamp = Some 300, predicted_label = None\<rparr>"
  by (simp add: example_database_def relabel_image_def)

section \<open>The order re_order_images produces\<close>

lemma mset_np_argsort: "mset (np_argsort vs) = mset [0..<length vs]"
  by (simp add: np_argsort_def)

lemma set_np_argsort: "set (np_argsort vs) = {0..<length vs}"
  by (simp add: np_argsort_def)

lemma length_np_argsort: "length (np_argsort vs) = length vs"
  by (simp add: np_argsort_def)

lemma sorted_np_argsort: "sorted (map (\<lambda>i. vs ! i) (np_argsort vs))"
  by (simp add: np_argsort_def)

lemma put_notmask_all_present:
  "length idx = length vs \<Longrightarrow> put_notmask (map Some vs) idx = idx"
proof (induction vs arbitrary: idx)
  case Nil
  then show ?case by simp
next
  case (Cons v vs)
  then obtain i idx' where "idx = i # idx'" by (cases idx) auto
  with Cons show ?case by simp
qed

lemma present_all: "present (map Some vs) = vs"
  by (simp add: present_def comp_def)

lemma series_argsort_all_present:
  "series_argsort (map Some vs) = map int (np_argsort vs)"
  by (simp add: series_argsort_def present_all put_notmask_all_present length_np_argsort)

lemma those_map_Some: "\<forall>x \<in> set xs. f x = Some (g x) \<Longrightarrow> those (map f xs) = Some (map g xs)"
  by (induction xs) auto

lemma np_take_nat:
  "\<forall>i \<in> set idx. i < length xs \<Longrightarrow> np_take xs (map int idx) = Some (map (\<lambda>i. xs ! i) idx)"
  unfolding np_take_def map_map
  by (rule those_map_Some) (simp add: py_nth_def)

lemma mset_map_nth_argsort: "mset (map (\<lambda>i. rs ! i) (np_argsort vs)) = mset rs"
  if "length vs = length rs"
proof -
  have "mset (map (\<lambda>i. rs ! i) (np_argsort vs)) = image_mset (\<lambda>i. rs ! i) (mset (np_argsort vs))"
    by simp
  also have "\<dots> = image_mset (\<lambda>i. rs ! i) (mset [0..<length rs])"
    by (simp only: mset_np_argsort that)
  also have "\<dots> = mset (map (\<lambda>i. rs ! i) [0..<length rs])"
    by simp
  also have "\<dots> = mset rs"
    by (simp only: map_nth)
  finally show ?thesis .
qed

lemma files_at_all_present:
  assumes "\<forall>r \<in> set (rows db). k r \<noteq> None"
  shows "\<exists>rs. mset rs = mset (rows db) \<and> sorted (map (\<lambda>r. the (k r)) rs) \<and>
           files_at rd db (series_argsort (map k (rows db))) =
             Inr (map (\<lambda>r. os_path_join rd (uuid r @ ''.jpg'')) rs)"
proof -
  let ?vs = "map (\<lambda>r. the (k r)) (rows db)"
  let ?idx = "np_argsort ?vs"
  let ?rs = "map (\<lambda>i. rows db ! i) ?idx"
  from assms have col: "map k (rows db) = map Some ?vs"
    by auto
  have in_range: "\<forall>i \<in> set ?idx. i < length (rows db)"
    by (simp add: set_np_argsort)
  have "mset ?rs = mset (rows db)"
    by (rule mset_map_nth_argsort) simp
  moreover have "map (\<lambda>r. the (k r)) ?rs = map (\<lambda>i. ?vs ! i) ?idx"
    using in_range by simp
  then have "sorted (map (\<lambda>r. the (k r)) ?rs)"
    by (simp only: sorted_np_argsort)
  moreover have "np_take (map uuid (rows db)) (map int ?idx) = Some (map (\<lambda>i. map uuid (rows db) ! i) ?idx)"
    by (rule np_take_nat) (use in_range in simp)
  then have "files_at rd db (series_argsort (map Some ?vs)) =
             Inr (map (\<lambda>r. os_path_join rd (uuid r @ ''.jpg'')) ?rs)"
    unfolding files_at_def series_argsort_all_present using in_range by simp
  then have "files_at rd db (series_argsort (map k (rows db))) =
             Inr (map (\<lambda>r. os_path_join rd (uuid r @ ''.jpg'')) ?rs)"
    by (simp only: col)
  ultimately show ?thesis by blast
qed

lemma set_put_notmask:
  "set (put_notmask col idx) \<subseteq> (if None \<in> set col then {-1} else {}) \<union> set idx"
proof (induction col idx rule: put_notmask.induct)
  case (1 idx)
  then show ?case by simp
next
  case (2 col idx)
  then show ?case by (auto split: if_splits)
next
  case (3 v col)
  then show ?case by simp
next
  case (4 v col i idx)
  then show ?case by (auto split: if_splits)
qed

lemma length_present: "length (present col) \<le> length col"
  by (simp add: present_def)

lemma series_argsort_in_range:
  assumes "i \<in> set (series_argsort col)"
  shows "- int (length col) \<le> i \<and> i < int (length col)"
proof -
  from assms set_put_notmask [of col "map int (np_argsort (present col))"]
  have "(None \<in> set col \<and> i = -1) \<or> i \<in> int ` set (np_argsort (present col))"
    by (auto simp: series_argsort_def split: if_splits)
  then show ?thesis
  proof
    assume a: "None \<in> set col \<and> i = -1"
    then have "col \<noteq> []" by auto
    then have "0 < length col" by simp
    with a show ?thesis by linarith
  next
    assume "i \<in> int ` set (np_argsort (present col))"
    then obtain j where "i = int j" "j < length (present col)"
      by (auto simp: set_np_argsort)
    with length_present [of col] show ?thesis by simp
  qed
qed

lemma py_nth_in_range:
  "- int (length xs) \<le> i \<Longrightarrow> i < int (length xs) \<Longrightarrow> \<exists>y \<in> set xs. py_nth xs i = Some y"
  by (auto simp: py_nth_def Let_def)

lemma np_take_in_range:
  "\<forall>i \<in> set idx. - int (length xs) \<le> i \<and> i < int (length xs) \<Longrightarrow>
   \<exists>ys. np_take xs idx = Some ys \<and> set ys \<subseteq> set xs"
proof (induction idx)
  case Nil
  then show ?case by (simp add: np_take_def)
next
  case (Cons i idx)
  then obtain ys where ys: "np_take xs idx = Some ys" "set ys \<subseteq> set xs"
    by auto
  from Cons.prems py_nth_in_range [of xs i] obtain y where "y \<in> set xs" "py_nth xs i = Some y"
    by auto
  with ys show ?case by (simp add: np_take_def)
qed

lemma files_at_rows_only:
  assumes "set idx \<subseteq> set (series_argsort col)" "length col = length (rows db)"
  shows "\<exists>ids. set ids \<subseteq> uuid ` set (rows db) \<and>
           files_at rd db idx = Inr (map (\<lambda>u. os_path_join rd (u @ ''.jpg'')) ids)"
proof -
  have "\<forall>i \<in> set idx. - int (length (map uuid (rows db))) \<le> i \<and> i < int (length (map uuid (rows db)))"
    using assms series_argsort_in_range [of _ col] by auto
  from np_take_in_range [OF this] obtain ys
    where "np_take (map uuid (rows db)) idx = Some ys" "set ys \<subseteq> set (map uuid (rows db))"
    by blast
  then show ?thesis
    by (auto simp: files_at_def)
qed

lemma length_distance_from_median: "length (distance_from_median col) = length col"
  by (simp add: distance_from_median_def Let_def)

lemma re_order_images_rows_only:
  assumes "has_predicted_label db" "sorting_option \<noteq> Uuid"
  shows "\<exists>ids. set ids \<subseteq> uuid ` set (rows db) \<and>
           re_order_images rd jpgs sorting_option image_files db =
             Inr (map (\<lambda>u. os_path_join rd (u @ ''.jpg'')) ids)"
proof (cases sorting_option)
  case Uuid
  with assms show ?thesis by simp
next
  case Predicted_bad_first
  with assms files_at_rows_only [of "series_argsort (map predicted_label (rows db))"
      "map predicted_label (rows db)" db rd]
  show ?thesis by (simp add: re_order_images_def)
next
  case Predicted_good_first
  with assms files_at_rows_only [of "rev (series_argsort (map predicted_label (rows db)))"
      "map predicted_label (rows db)" db rd]
  show ?thesis by (simp add: re_order_images_def)
next
  case Middle
  with assms files_at_rows_only
    [of "series_argsort (distance_from_median (map predicted_label (rows db)))"
      "distance_from_median (map predicted_label (rows db))" db rd]
  show ?thesis by (simp add: re_order_images_def length_distance_from_median)
qed

lemmas order_defs = re_order_images_def files_at_def series_argsort_def np_argsort_def present_def
  np_take_def py_nth_def os_path_join_def frame_of_scores_def distance_from_median_def
  series_median_def Let_def

text \<open>C5 (as amended). With the choice "Predicted bad first", \<^verbatim>\<open>re_order_images\<close> orders
  the rows of the frame, not the images of the directory: whatever the directory holds,
  the result lists images of uuids that have a row, and no others. When every row has a
  predicted label the result is a rearrangement of all the rows, ascending in
  \<^verbatim>\<open>predicted_label\<close>. For the frame with the rows a: 0.9, b: 0.1, c: unset, in this order,
  the result is b, a, c.\<close>

theorem predicted_bad_first_order:
  "(has_predicted_label db \<longrightarrow>
      (\<exists>ids. set ids \<subseteq> uuid ` set (rows db) \<and>
         re_order_images rd jpgs Predicted_bad_first image_files db =
           Inr (map (\<lambda>u. os_path_join rd (u @ ''.jpg'')) ids))) \<and>
   (has_predicted_label db \<and> (\<forall>r \<in> set (rows db). predicted_label r \<noteq> None) \<longrightarrow>
      (\<exists>rs. mset rs = mset (rows db) \<and> sorted (map (\<lambda>r. the (predicted_label r)) rs) \<and>
         re_order_images rd jpgs Predicted_bad_first image_files db =
           Inr (map (\<lambda>r. os_path_join rd (uuid r @ ''.jpg'')) rs))) \<and>
   re_order_images ''imgs'' jpgs Predicted_bad_first image_files
     (frame_of_scores [(''a'', Some (9/10)), (''b'', Some (1/10)), (''c'', None)]) =
     Inr [''imgs/b.jpg'', ''imgs/a.jpg'', ''imgs/c.jpg'']"
proof (intro conjI impI)
  assume "has_predicted_label db"
  then show "\<exists>ids. set ids \<subseteq> uuid ` set (rows db) \<and>
         re_order_images rd jpgs Predicted_bad_first image_files db =
           Inr (map (\<lambda>u. os_path_join rd (u @ ''.jpg'')) ids)"
    by (rule re_order_images_rows_only) simp
next
  assume a: "has_predicted_label db \<and> (\<forall>r \<in> set (rows db). predicted_label r \<noteq> None)"
  then have "\<forall>r \<in> set (rows db). predicted_label r \<noteq> None" by simp
  from files_at_all_present [OF this, of rd] a
  show "\<exists>rs. mset rs = mset (rows db) \<and> sorted (map (\<lambda>r. the (predicted_label r)) rs) \<and>
         re_order_images rd jpgs Predicted_bad_first image_files db =
           Inr (map (\<lambda>r. os_path_join rd (uuid r @ ''.jpg'')) rs)"
    by (simp add: re_order_images_def)
next
  show "re_order_images ''imgs'' jpgs Predicted_bad_first image_files
     (frame_of_scores [(''a'', Some (9/10)), (''b'', Some (1/10)), (''c'', None)]) =
     Inr [''imgs/b.jpg'', ''imgs/a.jpg'', ''imgs/c.jpg'']"
    by (simp add: order_defs del: not_None_eq)
qed

theorem predicted_bad_first_order_witness:
  "has_predicted_label (frame_of_scores [(''a'', Some (9/10)), (''b'', Some (1/10))]) \<and>
   list_all (\<lambda>r. predicted_label r \<noteq> None)
     (rows (frame_of_scores [(''a'', Some (9/10)), (''b'', Some (1/10))])) \<and>
   (\<exists>rs. mset rs = mset (rows (frame_of_scores [(''a'', Some (9/10)), (''b'', Some (1/10))])) \<and>
      sorted (map (\<lambda>r. the (predicted_label r)) rs) \<and>
      re_order_images ''imgs'' [] Predicted_bad_first []
        (frame_of_scores [(''a'', Some (9/10)), (''b'', Some (1/10))]) =
        Inr (map (\<lambda>r. os_path_join ''imgs'' (uuid r @ ''.jpg'')) rs)) \<and>
   re_order_images ''imgs'' [] Predicted_bad_first []
     (frame_of_scores [(''a'', Some (9/10)), (''b'', Some (1/10))]) =
     Inr [''imgs/b.jpg'', ''imgs/a.jpg'']"
proof -
  let ?F = "frame_of_scores [(''a'', Some (9/10)), (''b'', Some (1/10))]"
  have h: "has_predicted_label ?F" "\<forall>r \<in> set (rows ?F). predicted_label r \<noteq> None"
    by (simp_all add: frame_of_scores_def del: not_None_eq)
  have l: "list_all (\<lambda>r. predicted_label r \<noteq> None) (rows ?F)"
    by (simp add: frame_of_scores_def del: not_None_eq)
  have e: "re_order_images ''imgs'' [] Predicted_bad_first [] ?F =
     Inr [''imgs/b.jpg'', ''imgs/a.jpg'']"
    by (simp add: order_defs del: not_None_eq)
  from predicted_bad_first_order [of ?F "''imgs''" "[]" "[]"] h
  have "\<exists>rs. mset rs = mset (rows ?F) \<and> sorted (map (\<lambda>r. the (predicted_label r)) rs) \<and>
      re_order_images ''imgs'' [] Predicted_bad_first [] ?F =
        Inr (map (\<lambda>r. os_path_join ''imgs'' (uuid r @ ''.jpg'')) rs)"
    by blast
  with h(1) l e show ?thesis by blast
qed

text \<open>C5 (counterexample). The directory holds the images a, b and d; the frame has rows
  for a and b only. The order produced is b, a: the image d, which has no row, is not in
  it.\<close>

theorem predicted_bad_first_drops_unrecorded:
  "re_order_images ''imgs'' [''imgs/a.jpg'', ''imgs/b.jpg'', ''imgs/d.jpg''] Predicted_bad_first
     [''imgs/a.jpg'', ''imgs/b.jpg'', ''imgs/d.jpg'']
     (frame_of_scores [(''a'', Some (9/10)), (''b'', Some (1/10))]) =
   Inr [''imgs/b.jpg'', ''imgs/a.jpg'']"
  by (simp add: order_defs del: not_None_eq)

declare bit_length.simps [simp del]

lemma series_median_all_present:
  assumes "vs \<noteq> []"
  shows "series_median (map Some vs) \<noteq> None"
proof -
  have "length (sort (map float64 (present (map Some vs)))) \<noteq> 0"
    using assms by (simp only: present_all length_sort length_map) simp
  then show ?thesis
    unfolding series_median_def Let_def by (simp del: not_None_eq length_0_conv)
qed

lemma float64_examples:
  "float64 (1/10) = 3602879701896397 / 36028797018963968"
  "float64 (3/10) = 5404319552844595 / 18014398509481984"
  "float64 (1/2) = 1/2"
  "float64 (9/10) = 8106479329266893 / 9007199254740992"
  "float64 1 = 1"
  by code_simp+

lemma distance_examples:
  "\<bar>float64 (float64 (1/10) - 1/2)\<bar> = 3602879701896397 / 9007199254740992"
  "\<bar>float64 (float64 (9/10) - 1/2)\<bar> = 3602879701896397 / 9007199254740992"
  "\<bar>float64 (float64 (1/2) - 1/2)\<bar> = 0"
  "\<bar>float64 (float64 (1/10) - float64 (3/10))\<bar> = 7205759403792793 / 36028797018963968"
  "\<bar>float64 (float64 (1/2) - float64 (3/10))\<bar> = 3602879701896397 / 18014398509481984"
  "\<bar>float64 (float64 (3/10) - float64 (3/10))\<bar> = 0"
  "\<bar>float64 (float64 1 - float64 (3/10))\<bar> = 3152519739159347 / 4503599627370496"
  by code_simp+

text \<open>Two scores whose exact distances from the median 0.5 differ, 1e-20 and 2e-20, are at
  the same distance 0.5 on doubles; the rows come after the others, in row order.\<close>

lemma middle_small_scores_example:
  "take 3 (distance_from_median
     [Some (1/100000000000000000000), Some (1/50000000000000000000), Some (1/2), Some (9/10),
      Some (19/20)]) =
   [Some (1/2), Some (1/2), Some 0]"
  "re_order_images ''imgs'' jpgs Middle image_files
     (frame_of_scores [(''p'', Some (1/100000000000000000000)),
        (''q'', Some (1/50000000000000000000)), (''m'', Some (1/2)), (''x'', Some (9/10)),
        (''y'', Some (19/20))]) =
   Inr [''imgs/m.jpg'', ''imgs/x.jpg'', ''imgs/y.jpg'', ''imgs/p.jpg'', ''imgs/q.jpg'']"
  by code_simp+

text \<open>C6 (as amended). With the choice "middle", \<^verbatim>\<open>re_order_images\<close> orders the rows of the
  frame, not the images of the directory: the result lists images of uuids that have a
  row, and no others. When the frame is not empty and every row has a predicted label, the
  median \<open>m\<close> of the predicted labels exists and the result is a rearrangement of all the
  rows, ascending in the distance of \<^verbatim>\<open>predicted_label\<close> from \<open>m\<close> as the code computes it
  on doubles. Rows at the same distance are not put in identifier order, and nothing is
  said of their order in general. For the rows a: 0.1, b: 0.5, c: 0.9 stored in this order
  the median is 0.5, a and c are at the same distance, and the result is b, a, c. For the
  rows c: 0.5, b: 0.3, a: 0.1 the result is b, a, c as well: the difference of the doubles
  0.3 and 0.1 rounds below that of 0.5 and 0.3.\<close>

theorem middle_order:
  "(has_predicted_label db \<longrightarrow>
      (\<exists>ids. set ids \<subseteq> uuid ` set (rows db) \<and>
         re_order_images rd jpgs Middle image_files db =
           Inr (map (\<lambda>u. os_path_join rd (u @ ''.jpg'')) ids))) \<and>
   (has_predicted_label db \<and> rows db \<noteq> [] \<and> (\<forall>r \<in> set (rows db). predicted_label r \<noteq> None) \<longrightarrow>
      (\<exists>m rs. series_median (map predicted_label (rows db)) = Some m \<and>
         mset rs = mset (rows db) \<and>
         sorted (map (\<lambda>r. \<bar>float64 (float64 (the (predicted_label r)) - m)\<bar>) rs) \<and>
         re_order_images rd jpgs Middle image_files db =
           Inr (map (\<lambda>r. os_path_join rd (uuid r @ ''.jpg'')) rs))) \<and>
   series_median [Some (1/10), Some (1/2), Some (9/10)] = Some (1/2) \<and>
   distance_from_median [Some (1/10), Some (1/2), Some (9/10)] =
     [Some (3602879701896397 / 9007199254740992), Some 0,
      Some (3602879701896397 / 9007199254740992)] \<and>
   re_order_images ''imgs'' jpgs Middle image_files
     (frame_of_scores [(''a'', Some (1/10)), (''b'', Some (1/2)), (''c'', Some (9/10))]) =
     Inr [''imgs/b.jpg'', ''imgs/a.jpg'', ''imgs/c.jpg''] \<and>
   re_order_images ''imgs'' jpgs Middle image_files
     (frame_of_scores [(''c'', Some (1/2)), (''b'', Some (3/10)), (''a'', Some (1/10))]) =
     Inr [''imgs/b.jpg'', ''imgs/a.jpg'', ''imgs/c.jpg'']"
proof (intro conjI impI)
  assume "has_predicted_label db"
  then show "\<exists>ids. set ids \<subseteq> uuid ` set (rows db) \<and>
         re_order_images rd jpgs Middle image_files db =
           Inr (map (\<lambda>u. os_path_join rd (u @ ''.jpg'')) ids)"
    by (rule re_order_images_rows_only) simp
next
  assume a: "has_predicted_label db \<and> rows db \<noteq> [] \<and>
    (\<forall>r \<in> set (rows db). predicted_label r \<noteq> None)"
  let ?col = "map predicted_label (rows db)"
  let ?vs = "map (\<lambda>r. the (predicted_label r)) (rows db)"
  from a have col: "?col = map Some ?vs" by auto
  from a have "?vs \<noteq> []" by simp
  from series_median_all_present [OF this] col obtain m where m: "series_median ?col = Some m"
    by (cases "series_median ?col") auto
  let ?k = "\<lambda>r. Some \<bar>float64 (float64 (the (predicted_label r)) - m)\<bar>"
  from a m have d: "distance_from_median ?col = map ?k (rows db)"
    by (auto simp: distance_from_median_def)
  have "\<forall>r \<in> set (rows db). ?k r \<noteq> None" by simp
  from files_at_all_present [OF this, of rd] obtain rs
    where "mset rs = mset (rows db)" "sorted (map (\<lambda>r. the (?k r)) rs)"
      "files_at rd db (series_argsort (map ?k (rows db))) =
         Inr (map (\<lambda>r. os_path_join rd (uuid r @ ''.jpg'')) rs)"
    by blast
  with a m d show "\<exists>m rs. series_median ?col = Some m \<and> mset rs = mset (rows db) \<and>
         sorted (map (\<lambda>r. \<bar>float64 (float64 (the (predicted_label r)) - m)\<bar>) rs) \<and>
         re_order_images rd jpgs Middle image_files db =
           Inr (map (\<lambda>r. os_path_join rd (uuid r @ ''.jpg'')) rs)"
    by (auto simp: re_order_images_def)
next
  show "series_median [Some (1/10), Some (1/2), Some (9/10)] = Some (1/2)"
    by code_simp
next
  show "distance_from_median [Some (1/10), Some (1/2), Some (9/10)] =
     [Some (3602879701896397 / 9007199254740992), Some 0,
      Some (3602879701896397 / 9007199254740992)]"
    by code_simp
next
  show "re_order_images ''imgs'' jpgs Middle image_files
     (frame_of_scores [(''a'', Some (1/10)), (''b'', Some (1/2)), (''c'', Some (9/10))]) =
     Inr [''imgs/b.jpg'', ''imgs/a.jpg'', ''imgs/c.jpg'']"
    by code_simp
next
  show "re_order_images ''imgs'' jpgs Middle image_files
     (frame_of_scores [(''c'', Some (1/2)), (''b'', Some (3/10)), (''a'', Some (1/10))]) =
     Inr [''imgs/b.jpg'', ''imgs/a.jpg'', ''imgs/c.jpg'']"
    by code_simp
qed

theorem middle_order_witness:
  "has_predicted_label (frame_of_scores [(''a'', Some (1/10)), (''b'', Some (3/10)), (''c'', Some (1))]) \<and>
   rows (frame_of_scores [(''a'', Some (1/10)), (''b'', Some (3/10)), (''c'', Some (1))]) \<noteq> [] \<and>
   list_all (\<lambda>r. predicted_label r \<noteq> None)
     (rows (frame_of_scores [(''a'', Some (1/10)), (''b'', Some (3/10)), (''c'', Some (1))])) \<and>
   (\<exists>m rs. series_median (map predicted_label
        (rows (frame_of_scores [(''a'', Some (1/10)), (''b'', Some (3/10)), (''c'', Some (1))]))) =
        Some m \<and>
      mset rs = mset (rows (frame_of_scores [(''a'', Some (1/10)), (''b'', Some (3/10)), (''c'', Some (1))])) \<and>
      sorted (map (\<lambda>r. \<bar>float64 (float64 (the (predicted_label r)) - m)\<bar>) rs) \<and>
      re_order_images ''imgs'' [] Middle []
        (frame_of_scores [(''a'', Some (1/10)), (''b'', Some (3/10)), (''c'', Some (1))]) =
        Inr (map (\<lambda>r. os_path_join ''imgs'' (uuid r @ ''.jpg'')) rs)) \<and>
   re_order_images ''imgs'' [] Middle []
     (frame_of_scores [(''a'', Some (1/10)), (''b'', Some (3/10)), (''c'', Some (1))]) =
     Inr [''imgs/b.jpg'', ''imgs/a.jpg'', ''imgs/c.jpg'']"
proof -
  let ?F = "frame_of_scores [(''a'', Some (1/10)), (''b'', Some (3/10)), (''c'', Some (1))]"
  have h: "has_predicted_label ?F" "rows ?F \<noteq> []"
    "\<forall>r \<in> set (rows ?F). predicted_label r \<noteq> None"
    by (simp_all add: frame_of_scores_def del: not_None_eq)
  have l: "list_all (\<lambda>r. predicted_label r \<noteq> None) (rows ?F)"
    by (simp add: frame_of_scores_def del: not_None_eq)
  have e: "re_order_images ''imgs'' [] Middle [] ?F =
     Inr [''imgs/b.jpg'', ''imgs/a.jpg'', ''imgs/c.jpg'']"
    by code_simp
  from middle_order [of ?F "''imgs''" "[]" "[]"] h
  have "\<exists>m rs. series_median (map predicted_label (rows ?F)) = Some m \<and>
      mset rs = mset (rows ?F) \<and>
      sorted (map (\<lambda>r. \<bar>float64 (float64 (the (predicted_label r)) - m)\<bar>) rs) \<and>
      re_order_images ''imgs'' [] Middle [] ?F =
        Inr (map (\<lambda>r. os_path_join ''imgs'' (uuid r @ ''.jpg'')) rs)"
    by blast
  with h(1,2) l e show ?thesis by blast
qed

text \<open>C6 (counterexample). The same three records, a: 0.1, b: 0.5, c: 0.9, stored in the
  row order c, b, a. The distances from the median are the same list of doubles as for
  the row order a, b, c (the double nearest to 0.4, then 0, then the same double again).
  \<^verbatim>\<open>argsort\<close> sees the distances only, and the ids at the tied positions come out as c,
  then a: the order is b, c, a. The tie is not broken by identifier, and the order is not
  b, a, c.\<close>

theorem middle_tie_follows_row_order:
  "re_order_images ''imgs'' [''imgs/a.jpg'', ''imgs/b.jpg'', ''imgs/c.jpg''] Middle
     [''imgs/a.jpg'', ''imgs/b.jpg'', ''imgs/c.jpg'']
     (frame_of_scores [(''c'', Some (9/10)), (''b'', Some (1/2)), (''a'', Some (1/10))]) =
   Inr [''imgs/b.jpg'', ''imgs/c.jpg'', ''imgs/a.jpg''] \<and>
   distance_from_median [Some (9/10), Some (1/2), Some (1/10)] =
     distance_from_median [Some (1/10), Some (1/2), Some (9/10)]"
proof
  show "re_order_images ''imgs'' [''imgs/a.jpg'', ''imgs/b.jpg'', ''imgs/c.jpg''] Middle
     [''imgs/a.jpg'', ''imgs/b.jpg'', ''imgs/c.jpg'']
     (frame_of_scores [(''c'', Some (9/10)), (''b'', Some (1/2)), (''a'', Some (1/10))]) =
   Inr [''imgs/b.jpg'', ''imgs/c.jpg'', ''imgs/a.jpg'']"
    by code_simp
  show "distance_from_median [Some (9/10), Some (1/2), Some (1/10)] =
     distance_from_median [Some (1/10), Some (1/2), Some (9/10)]"
    by code_simp
qed

section \<open>The walk of the session\<close>

declare label_dataset_loop.simps [simp del]

lemma py_nth_nat: "i < length xs \<Longrightarrow> py_nth xs (int i) = Some (xs ! i)"
  by (simp add: py_nth_def)

lemma py_nth_length: "py_nth xs (int (length xs)) = None"
  by (simp add: py_nth_def)

lemma emit_stop: "emit evs (stop e db i) = \<lparr>ended = e, database_at_end = db, index_at_end = i, trace = evs\<rparr>"
  by (simp add: emit_def stop_def)

lemma skip_to_the_end:
  assumes "\<forall>f \<in> set image_files. label_present (load (uuid_of_file f) database)"
    and "i \<le> length image_files"
  shows "label_dataset_loop label_file readable image_files ticks database (int i) True =
         \<lparr>ended = Raised IndexError_image_files, database_at_end = database,
          index_at_end = int (length image_files),
          trace = map (\<lambda>j. Skipped (int j)) [i..<length image_files]\<rparr>"
  using assms(2)
proof (induction k \<equiv> "length image_files - i" arbitrary: i)
  case 0
  then have "i = length image_files" by simp
  then show ?case
    by (simp add: label_dataset_loop.simps [of _ _ image_files] py_nth_length stop_def)
next
  case (Suc k)
  then have i: "i < length image_files" by simp
  then have "image_files ! i \<in> set image_files" by simp
  with assms(1) have l: "label_present (load (uuid_of_file (image_files ! i)) database)"
    by blast
  from Suc have "k = length image_files - Suc i" "Suc i \<le> length image_files" by simp_all
  from Suc.hyps(1) [OF this]
  have "label_dataset_loop label_file readable image_files ticks database (int i + 1) True =
         \<lparr>ended = Raised IndexError_image_files, database_at_end = database,
          index_at_end = int (length image_files),
          trace = map (\<lambda>j. Skipped (int j)) [Suc i..<length image_files]\<rparr>"
    by (simp add: add.commute)
  with i l show ?case
    by (simp add: label_dataset_loop.simps [of _ _ image_files _ _ "int i"] py_nth_nat Let_def
        emit_def upt_conv_Cons)
qed

text \<open>C10. When skipping is enabled and every image of the planned sequence has a label
  present, the loop started at index 0 passes over every index without showing an image or
  reading a key, the index is only ever incremented (the modulo is applied after a key
  press alone), and the next access \<^verbatim>\<open>image_files[current_index]\<close> is made with the index
  equal to the length of the sequence: it raises \<^verbatim>\<open>IndexError\<close>.\<close>

theorem skip_runs_off_the_end:
  assumes "\<forall>f \<in> set image_files. label_present (load (uuid_of_file f) database)"
  shows "label_dataset_loop label_file readable image_files ticks database 0 True =
         \<lparr>ended = Raised IndexError_image_files, database_at_end = database,
          index_at_end = int (length image_files),
          trace = map (\<lambda>j. Skipped (int j)) [0..<length image_files]\<rparr>"
  using skip_to_the_end [OF assms, of 0] by simp

theorem skip_runs_off_the_end_witness:
  "label_present (load (uuid_of_file ''imgs/a.jpg'') example_database) \<and>
   label_dataset_loop ''imgs.csv'' (\<lambda>u. True) [''imgs/a.jpg'']
     [\<lparr>tick_key = 53, tick_time = 300, tick_random = 1/2\<rparr>] example_database 0 True =
   \<lparr>ended = Raised IndexError_image_files, database_at_end = example_database,
    index_at_end = 1, trace = [Skipped 0]\<rparr>"
proof -
  have l: "label_present (load (uuid_of_file ''imgs/a.jpg'') example_database)"
    by (simp add: label_present_def load_def uuid_of_file_def os_path_basename_def
        example_database_def)
  then have "\<forall>f \<in> set [''imgs/a.jpg'']. label_present (load (uuid_of_file f) example_database)"
    by simp
  from skip_runs_off_the_end [OF this, of "''imgs.csv''" "\<lambda>u. True"
      "[\<lparr>tick_key = 53, tick_time = 300, tick_random = 1/2\<rparr>]"] l
  show ?thesis by simp
qed

lemma not_skipped_maybe_backup: "\<forall>e \<in> set (maybe_backup label_file t). \<not> is_Skipped e"
  by (simp add: maybe_backup_def)

lemma loop_skips_labeled:
  "py_nth image_files i = Some image_file \<Longrightarrow>
   label_present (load (uuid_of_file image_file) database) \<Longrightarrow>
   label_dataset_loop label_file readable image_files ticks database i True =
     emit [Skipped i]
       (label_dataset_loop label_file readable image_files ticks database (i + 1) True)"
  by (subst label_dataset_loop.simps) (simp add: Let_def)

lemma loop_flag_irrelevant:
  "py_nth image_files i = Some image_file \<Longrightarrow>
   \<not> label_present (load (uuid_of_file image_file) database) \<Longrightarrow>
   label_dataset_loop label_file readable image_files ticks database i skip =
   label_dataset_loop label_file readable image_files ticks database i False"
  by (subst (1 2) label_dataset_loop.simps) (simp add: Let_def)

lemma loop_off_the_end:
  "py_nth image_files i = None \<Longrightarrow>
   label_dataset_loop label_file readable image_files ticks database i skip =
     stop (Raised IndexError_image_files) database i"
  by (subst label_dataset_loop.simps) simp

lemma no_skip_once_cleared:
  "\<forall>e \<in> set (trace (label_dataset_loop label_file readable image_files ticks database i False)).
     \<not> is_Skipped e"
proof (induction ticks arbitrary: database i)
  case Nil
  show ?case
    by (subst label_dataset_loop.simps)
       (simp add: Let_def emit_def stop_def split: option.splits)
next
  case (Cons t ticks)
  show ?case
    by (subst label_dataset_loop.simps)
       (simp add: Cons Let_def emit_def stop_def not_skipped_maybe_backup ball_Un
          split: option.splits)
qed

lemma skips_come_first:
  "\<forall>e \<in> set (dropWhile is_Skipped
       (trace (label_dataset_loop label_file readable image_files ticks database i True))).
     \<not> is_Skipped e"
proof (induction "nat (int (length image_files) - i)" arbitrary: i rule: less_induct)
  case less
  let ?s = "\<lambda>i skip. label_dataset_loop label_file readable image_files ticks database i skip"
  have sub: "set (dropWhile is_Skipped (trace (?s i False))) \<subseteq> set (trace (?s i False))"
    by (auto dest: set_dropWhileD)
  show ?case
  proof (cases "py_nth image_files i")
    case None
    then show ?thesis by (simp add: loop_off_the_end stop_def)
  next
    case (Some image_file)
    show ?thesis
    proof (cases "label_present (load (uuid_of_file image_file) database)")
      case False
      from loop_flag_irrelevant [OF Some False] have "?s i True = ?s i False" .
      with sub no_skip_once_cleared [of label_file readable image_files ticks database i]
      show ?thesis by auto
    next
      case True
      from Some have "nat (int (length image_files) - (i + 1)) < nat (int (length image_files) - i)"
        by (auto simp: py_nth_def Let_def split: if_splits)
      from less [OF this] loop_skips_labeled [OF Some True] show ?thesis
        by (simp add: emit_def)
    qed
  qed
qed
lemmas session_defs = label_present_def shown_label_def load_def uuid_of_file_def
  os_path_basename_def os_path_dirname_def os_path_join_def py_nth_def emit_def stop_def
  maybe_backup_def key_press_def relabel_image_def frame_of_scores_def Let_def

text \<open>C7 (as amended). Skipping applies only until the first image is shown. While the
  flag is set, an index whose image has a label present is passed over and the loop goes
  on with the next index. Once the flag is cleared (which the loop does before it shows an
  image) no index is ever skipped again, whatever labels the frame holds by then; so in the
  trace of a session every skip comes before the first image shown.\<close>

theorem skip_only_before_first_image:
  "(py_nth image_files i = Some image_file \<and>
    label_present (load (uuid_of_file image_file) database) \<longrightarrow>
      label_dataset_loop label_file readable image_files ticks database i True =
        emit [Skipped i]
          (label_dataset_loop label_file readable image_files ticks database (i + 1) True)) \<and>
   (\<forall>e \<in> set (trace (label_dataset_loop label_file readable image_files ticks database i False)).
      \<not> is_Skipped e) \<and>
   (\<forall>e \<in> set (dropWhile is_Skipped
        (trace (label_dataset_loop label_file readable image_files ticks database i True))).
      \<not> is_Skipped e)"
  using loop_skips_labeled [of image_files i image_file database label_file readable ticks]
    no_skip_once_cleared [of label_file readable image_files ticks database i]
    skips_come_first [of label_file readable image_files ticks database i]
  by blast

theorem skip_only_before_first_image_witness:
  "py_nth [''imgs/a.jpg'', ''imgs/b.jpg''] 0 = Some ''imgs/a.jpg'' \<and>
   label_present (load (uuid_of_file ''imgs/a.jpg'') example_database) \<and>
   label_dataset_loop ''imgs.csv'' (\<lambda>u. True) [''imgs/a.jpg'', ''imgs/b.jpg''] [key_press 83]
     example_database 0 True =
   emit [Skipped 0]
     (label_dataset_loop ''imgs.csv'' (\<lambda>u. True) [''imgs/a.jpg'', ''imgs/b.jpg''] [key_press 83]
        example_database 1 True) \<and>
   trace (label_dataset_loop ''imgs.csv'' (\<lambda>u. True) [''imgs/a.jpg'', ''imgs/b.jpg'']
     [key_press 83] example_database 0 True) =
   [Skipped 0, Shown 1 ''b'' None, Shown 0 ''a'' (Some (1/2))]"
proof -
  have a: "py_nth [''imgs/a.jpg'', ''imgs/b.jpg''] 0 = Some ''imgs/a.jpg''"
    by (simp add: py_nth_def)
  have b: "label_present (load (uuid_of_file ''imgs/a.jpg'') example_database)"
    by (simp add: session_defs example_database_def)
  have c: "trace (label_dataset_loop ''imgs.csv'' (\<lambda>u. True) [''imgs/a.jpg'', ''imgs/b.jpg'']
     [key_press 83] example_database 0 True) =
   [Skipped 0, Shown 1 ''b'' None, Shown 0 ''a'' (Some (1/2))]"
    by (simp add: label_dataset_loop.simps session_defs example_database_def)
  from skip_only_before_first_image [of "[''imgs/a.jpg'', ''imgs/b.jpg'']" 0 "''imgs/a.jpg''"
      example_database "''imgs.csv''" "\<lambda>u. True" "[key_press 83]"] a b
  have "label_dataset_loop ''imgs.csv'' (\<lambda>u. True) [''imgs/a.jpg'', ''imgs/b.jpg''] [key_press 83]
     example_database 0 True =
   emit [Skipped 0]
     (label_dataset_loop ''imgs.csv'' (\<lambda>u. True) [''imgs/a.jpg'', ''imgs/b.jpg''] [key_press 83]
        example_database (0 + 1) True)"
    by blast
  with a b c show ?thesis by simp
qed

text \<open>C7 (counterexample). Two unlabelled images a and b, skipping enabled. The user
  gives a the label 0.5 (key 5), is shown b, and goes back with the left arrow: a, which
  now has a label present in the frame, is shown again, with its label, instead of being
  skipped.\<close>

theorem labeled_image_is_shown_again:
  "trace (label_dataset_loop ''imgs.csv'' (\<lambda>u. True) [''imgs/a.jpg'', ''imgs/b.jpg'']
     [key_press 53, key_press 81]
     (frame_of_scores [(''a'', Some (1/5)), (''b'', Some (1/5))]) 0 True) =
   [Shown 0 ''a'' None,
    To_csv ''imgs.csv''
      \<lparr>rows = [\<lparr>uuid = ''a'', label = Some (1/2), timestamp = Some 300,
                 predicted_label = Some (1/5)\<rparr>,
               \<lparr>uuid = ''b'', label = None, timestamp = Some 100,
                 predicted_label = Some (1/5)\<rparr>],
       has_predicted_label = True\<rparr>,
    Shown 1 ''b'' None,
    Shown 0 ''a'' (Some (1/2))]"
  by (simp add: label_dataset_loop.simps session_defs)

section \<open>Where the session writes\<close>









end
